theory Spec2Isabelle
  imports Main
begin

section \<open>Data model\<close>

text \<open>
  The form component keeps three text fields (\<^verbatim>\<open>useState({ name: '', email: '', industry: '' })\<close>).
  The store's \<^verbatim>\<open>Lead\<close> interface adds \<^verbatim>\<open>submitted_at\<close>. The objects the controller hands
  to \<^verbatim>\<open>addLead\<close> are \<^verbatim>\<open>{...lead, emailSent: b}\<close>: a \<^verbatim>\<open>Lead\<close> with one more member. Record
  extension follows that structure, and the store is written over any extension of
  \<^verbatim>\<open>Lead\<close>, as the structurally typed source is.
\<close>

record FormData =
  name :: string
  email :: string
  industry :: string

record Lead = FormData +
  submitted_at :: string

record SentLead = Lead +
  emailSent :: bool

text \<open>
  \<^verbatim>\<open>interface LeadStore\<close>, the four data members; \<^verbatim>\<open>error: string | null\<close> is an option.
\<close>

record 'a LeadStore =
  submitted :: bool
  sessionLeads :: "'a Lead_scheme list"
  error :: "string option"
  isLoading :: bool

section \<open>The session store (src/lib/lead-store.ts)\<close>

text \<open>The state \<^verbatim>\<open>create\<close> is called with.\<close>

definition useLeadStore_init :: "'a LeadStore" where
  "useLeadStore_init = \<lparr>submitted = False, sessionLeads = [], error = None, isLoading = False\<rparr>"

text \<open>
  Every operation is a call of zustand's \<^verbatim>\<open>set\<close> with a partial state, which is merged
  into the current one: a record update.
\<close>

definition setSubmitted :: "bool \<Rightarrow> 'a LeadStore \<Rightarrow> 'a LeadStore" where
  "setSubmitted b s = s\<lparr>submitted := b\<rparr>"

text \<open>
  \<^verbatim>\<open>addLead\<close>: both \<^verbatim>\<open>throw\<close>s land in the function's own \<^verbatim>\<open>catch\<close>, which stores the
  message of the error in \<^verbatim>\<open>error\<close>. \<^verbatim>\<open>!lead.name\<close> on a string is true exactly for the
  empty string. \<^verbatim>\<open>Array.prototype.find\<close> gives the first element that satisfies the
  predicate or \<^verbatim>\<open>undefined\<close>; a found element is an object, hence truthy.
\<close>

definition addLead :: "'a Lead_scheme \<Rightarrow> 'a LeadStore \<Rightarrow> 'a LeadStore" where
  "addLead lead s =
     (if name lead = [] \<or> email lead = [] then
        s\<lparr>error := Some ''Invalid lead data: name and email are required''\<rparr>
      else
        (case List.find (\<lambda>l. email l = email lead) (sessionLeads s) of
           Some existingLead \<Rightarrow>
             s\<lparr>error := Some ''A lead with this email already exists in this session''\<rparr>
         | None \<Rightarrow>
             s\<lparr>sessionLeads := sessionLeads s @ [lead], error := None\<rparr>))"

definition clearError :: "'a LeadStore \<Rightarrow> 'a LeadStore" where
  "clearError s = s\<lparr>error := None\<rparr>"

definition setLoading :: "bool \<Rightarrow> 'a LeadStore \<Rightarrow> 'a LeadStore" where
  "setLoading b s = s\<lparr>isLoading := b\<rparr>"

text \<open>
  A session is a sequence of calls of the four operations on the store, starting from
  its initial state.
\<close>

datatype 'a store_op =
    SetSubmitted bool
  | AddLead "'a Lead_scheme"
  | ClearError
  | SetLoading bool

fun apply_op :: "'a LeadStore \<Rightarrow> 'a store_op \<Rightarrow> 'a LeadStore" where
  "apply_op s (SetSubmitted b) = setSubmitted b s"
| "apply_op s (AddLead lead) = addLead lead s"
| "apply_op s ClearError = clearError s"
| "apply_op s (SetLoading b) = setLoading b s"

definition run_ops :: "'a store_op list \<Rightarrow> 'a LeadStore" where
  "run_ops ops = foldl apply_op useLeadStore_init ops"

text \<open>The emails held by the session collection, in insertion order.\<close>

definition session_emails :: "'a LeadStore \<Rightarrow> string list" where
  "session_emails s = map email (sessionLeads s)"

section \<open>The form controller (LeadCaptureForm, handleSubmit)\<close>

text \<open>\<^verbatim>\<open>ValidationError\<close>, as the component reads it: \<^verbatim>\<open>error.field\<close>, \<^verbatim>\<open>error.message\<close>.\<close>

record ValidationError =
  field :: string
  message :: string

text \<open>
  The two remote calls are awaited. An awaited call either resolves to an object whose
  \<^verbatim>\<open>error\<close> member is \<^verbatim>\<open>null\<close> or an error object (here: its message), or rejects, which
  is an exception at the \<^verbatim>\<open>await\<close> (an aborted request after the 10 s timer, a network
  failure). The \<^verbatim>\<open>data\<close> member of the notify response is only logged.
\<close>

datatype remote_result = Resolved "string option" | Rejected

text \<open>
  What the component does not define itself: the imported \<^verbatim>\<open>validateLeadForm\<close>, the two
  readings of the clock (\<^verbatim>\<open>new Date().toISOString()\<close> is evaluated once for the lead and
  once more for the inserted row), and the remote ends of \<^verbatim>\<open>supabase.from('leads').insert\<close>
  and \<^verbatim>\<open>supabase.functions.invoke('send-confirmation')\<close>.
\<close>

record env =
  validate :: "FormData \<Rightarrow> ValidationError list"
  now_lead :: string
  now_row :: string
  insert_leads :: "Lead \<Rightarrow> remote_result"
  invoke_send_confirmation :: "FormData \<Rightarrow> remote_result"

text \<open>The remote calls a submission issues, in the order it issues them.\<close>

datatype remote_call = DbInsert Lead | FunctionsInvoke FormData

text \<open>
  The component's state: the two \<^verbatim>\<open>useState\<close> cells and the store it subscribes to.
\<close>

record ui =
  formData :: FormData
  validationErrors :: "ValidationError list"
  store :: "\<lparr>emailSent :: bool\<rparr> LeadStore"

text \<open>\<^verbatim>\<open>{...lead, emailSent: b}\<close>\<close>

definition with_emailSent :: "Lead \<Rightarrow> bool \<Rightarrow> SentLead" where
  "with_emailSent lead b =
     \<lparr>name = name lead, email = email lead, industry = industry lead,
      submitted_at = submitted_at lead, emailSent = b\<rparr>"

text \<open>
  \<^verbatim>\<open>handleSubmit\<close>. The result is the component state when the handler has returned and
  the remote calls it made. The inner \<^verbatim>\<open>try\<close> turns a rejected or failed notify call into
  \<^verbatim>\<open>addLead({...lead, emailSent: false})\<close>; the outer \<^verbatim>\<open>catch\<close> receives a rejected insert
  and the \<^verbatim>\<open>Error\<close> thrown for a \<^verbatim>\<open>dbError\<close>, logs it, calls \<^verbatim>\<open>setLoading(false)\<close> and
  returns. The \<^verbatim>\<open>console\<close> calls are not modelled.
\<close>

definition handleSubmit :: "env \<Rightarrow> ui \<Rightarrow> ui \<times> remote_call list" where
  "handleSubmit e u =
     (let fd = formData u;
          s1 = setLoading True (clearError (store u));
          errors = validate e fd;
          u1 = u\<lparr>validationErrors := errors\<rparr>
      in
        if length errors = 0 then
          (let lead = \<lparr>name = name fd, email = email fd, industry = industry fd,
                       submitted_at = now_lead e\<rparr>;
               row = \<lparr>name = name fd, email = email fd, industry = industry fd,
                      submitted_at = now_row e\<rparr>
           in
             case insert_leads e row of
               Rejected \<Rightarrow> (u1\<lparr>store := setLoading False s1\<rparr>, [DbInsert row])
             | Resolved (Some dbError) \<Rightarrow> (u1\<lparr>store := setLoading False s1\<rparr>, [DbInsert row])
             | Resolved None \<Rightarrow>
                 (let body = \<lparr>name = name fd, email = email fd, industry = industry fd\<rparr>;
                      s2 = (case invoke_send_confirmation e body of
                              Resolved (Some emailError) \<Rightarrow> addLead (with_emailSent lead False) s1
                            | Resolved None \<Rightarrow> addLead (with_emailSent lead True) s1
                            | Rejected \<Rightarrow> addLead (with_emailSent lead False) s1);
                      s3 = setSubmitted True s2
                  in (u1\<lparr>formData := \<lparr>name = [], email = [], industry = []\<rparr>,
                          store := setLoading False s3\<rparr>,
                      [DbInsert row, FunctionsInvoke body])))
        else (u1\<lparr>store := setLoading False s1\<rparr>, []))"

text \<open>The button of the success view: \<^verbatim>\<open>onClick={() => setSubmitted(false)}\<close>.\<close>

definition submitAnother :: "ui \<Rightarrow> ui" where
  "submitAnother u = u\<lparr>store := setSubmitted False (store u)\<rparr>"

text \<open>
  What the component renders: with \<^verbatim>\<open>submitted\<close> the success view, whose only dynamic
  part is \<^verbatim>\<open>You're #{sessionLeads.length} in this session\<close>; otherwise the entry form
  with the field values, the field errors, the store error region and the busy flag.
\<close>

datatype view =
    SuccessView nat
  | EntryForm FormData "ValidationError list" "string option" bool

definition LeadCaptureForm :: "ui \<Rightarrow> view" where
  "LeadCaptureForm u =
     (if submitted (store u) then SuccessView (length (sessionLeads (store u)))
      else EntryForm (formData u) (validationErrors u) (error (store u)) (isLoading (store u)))"

text \<open>The component when it is mounted on a fresh page.\<close>

definition ui_init :: ui where
  "ui_init = \<lparr>formData = \<lparr>name = [], email = [], industry = []\<rparr>,
              validationErrors = [], store = useLeadStore_init\<rparr>"

text \<open>The lead the handler builds and the row it inserts, for a given component state.\<close>

definition candidate_lead :: "env \<Rightarrow> ui \<Rightarrow> Lead" where
  "candidate_lead e u =
     \<lparr>name = name (formData u), email = email (formData u), industry = industry (formData u),
      submitted_at = now_lead e\<rparr>"

definition inserted_row :: "env \<Rightarrow> ui \<Rightarrow> Lead" where
  "inserted_row e u =
     \<lparr>name = name (formData u), email = email (formData u), industry = industry (formData u),
      submitted_at = now_row e\<rparr>"

definition notify_body :: "ui \<Rightarrow> FormData" where
  "notify_body u =
     \<lparr>name = name (formData u), email = email (formData u), industry = industry (formData u)\<rparr>"

fun is_insert :: "remote_call \<Rightarrow> bool" where
  "is_insert (DbInsert r) = True"
| "is_insert (FunctionsInvoke b) = False"

fun is_invoke :: "remote_call \<Rightarrow> bool" where
  "is_invoke (DbInsert r) = False"
| "is_invoke (FunctionsInvoke b) = True"

section \<open>Validation (src/lib/validation.ts, not among the sources)\<close>

text \<open>
  Modelled from the spec: the white space a name may not consist of. The module
  \<^verbatim>\<open>@/lib/validation\<close> is imported by the component but is missing; the spec says a name
  fails "if empty/whitespace-only". The characters are the ASCII ones of JavaScript's
  \<^verbatim>\<open>\s\<close>.
\<close>

definition is_space :: "char \<Rightarrow> bool" where
  "is_space c = (c \<in> set [CHR '' '', CHR 0x09, CHR 0x0A, CHR 0x0B, CHR 0x0C, CHR 0x0D])"

text \<open>
  Modelled from the spec: the "permissive email-shape regular expression" of the missing
  validation module. The spec does not print the expression; the one the repository's
  README quotes for the same check on the server is \<^verbatim>\<open>/^[^\s@]+@[^\s@]+\.[^\s@]+$/\<close>, which
  is what this function decides: no white space, exactly one \<^verbatim>\<open>@\<close>, something before it,
  and after it a dot that is neither its first nor its last character.
\<close>

definition email_shape :: "string \<Rightarrow> bool" where
  "email_shape s =
     (let local_part = takeWhile (\<lambda>c. c \<noteq> CHR ''@'') s;
          rest = dropWhile (\<lambda>c. c \<noteq> CHR ''@'') s
      in local_part \<noteq> [] \<and> rest \<noteq> [] \<and> \<not> list_ex is_space s \<and>
         CHR ''@'' \<notin> set (tl rest) \<and>
         CHR ''.'' \<in> set (tl (butlast (tl rest))))"

text \<open>
  Modelled from the spec: the "fixed allowed set" of industries of the missing validation
  module, with the values the component's select control offers (the spec's
  "retail & e-commerce" is the label of the value \<^verbatim>\<open>retail\<close>).
\<close>

definition allowed_industries :: "string list" where
  "allowed_industries =
     [''technology'', ''healthcare'', ''finance'', ''education'', ''retail'',
      ''manufacturing'', ''consulting'', ''other'']"

text \<open>
  Modelled from the spec: \<^verbatim>\<open>validateLeadForm\<close> of the missing validation module. "Produce a
  sequence of ValidationError, zero-or-more, one per offending field, in a stable field
  order. Rules: name fails if empty/whitespace-only; email fails if empty or does not
  match a permissive email-shape regular expression; industry fails if not one of the
  fixed allowed set." The spec does not give the message texts; no statement below
  depends on them.
\<close>

definition validateLeadForm :: "FormData \<Rightarrow> ValidationError list" where
  "validateLeadForm fd =
     (if list_all is_space (name fd)
      then [\<lparr>field = ''name'', message = ''Name is required''\<rparr>] else []) @
     (if email fd = [] \<or> \<not> email_shape (email fd)
      then [\<lparr>field = ''email'', message = ''Please enter a valid email address''\<rparr>] else []) @
     (if industry fd \<in> set allowed_industries
      then [] else [\<lparr>field = ''industry'', message = ''Please select an industry''\<rparr>])"

section \<open>Concrete sessions\<close>

definition ada_form :: FormData where
  "ada_form = \<lparr>name = ''Ada'', email = ''ada@example.com'', industry = ''technology''\<rparr>"

definition grace_form :: FormData where
  "grace_form = \<lparr>name = ''Grace'', email = ''grace@example.com'', industry = ''finance''\<rparr>"

text \<open>Both remote ends answer without an error.\<close>

definition env_ok :: env where
  "env_ok =
     \<lparr>validate = validateLeadForm,
      now_lead = ''2025-07-10T12:00:00.000Z'',
      now_row = ''2025-07-10T12:00:00.001Z'',
      insert_leads = (\<lambda>row. Resolved None),
      invoke_send_confirmation = (\<lambda>body. Resolved None)\<rparr>"

text \<open>The insert answers with an error object; the insert is aborted by its timer.\<close>

definition env_insert_error :: env where
  "env_insert_error = env_ok\<lparr>insert_leads := (\<lambda>row. Resolved (Some ''permission denied''))\<rparr>"

definition env_insert_aborted :: env where
  "env_insert_aborted = env_ok\<lparr>insert_leads := (\<lambda>row. Rejected)\<rparr>"

text \<open>The notify call answers with an error object; the notify call is aborted.\<close>

definition env_notify_error :: env where
  "env_notify_error =
     env_ok\<lparr>invoke_send_confirmation := (\<lambda>body. Resolved (Some ''Edge Function returned 500''))\<rparr>"

definition env_notify_aborted :: env where
  "env_notify_aborted = env_ok\<lparr>invoke_send_confirmation := (\<lambda>body. Rejected)\<rparr>"

text \<open>The fresh page with Ada's values typed in.\<close>

definition ui_ada :: ui where
  "ui_ada = ui_init\<lparr>formData := ada_form\<rparr>"

text \<open>
  Ada has been submitted with both calls succeeding, "submit another" has been pressed,
  and Ada's values are typed in again.
\<close>

definition ui_ada_again :: ui where
  "ui_ada_again = (submitAnother (fst (handleSubmit env_ok ui_ada)))\<lparr>formData := ada_form\<rparr>"

text \<open>
  Ada has been submitted with both calls succeeding, "submit another" has been pressed,
  and Grace's values are typed in.
\<close>

definition ui_grace_next :: ui where
  "ui_grace_next = (submitAnother (fst (handleSubmit env_ok ui_ada)))\<lparr>formData := grace_form\<rparr>"

text \<open>Two stored leads with the same email, and one with another.\<close>

definition ada_sent :: SentLead where
  "ada_sent = \<lparr>name = ''Ada'', email = ''ada@example.com'', industry = ''technology'',
      submitted_at = ''2025-07-10T12:00:00.000Z'', emailSent = True\<rparr>"

definition ada_late :: SentLead where
  "ada_late = \<lparr>name = ''Ada L.'', email = ''ada@example.com'', industry = ''other'',
      submitted_at = ''2025-07-10T12:05:00.000Z'', emailSent = False\<rparr>"

definition grace_sent :: SentLead where
  "grace_sent = \<lparr>name = ''Grace'', email = ''grace@example.com'', industry = ''finance'',
      submitted_at = ''2025-07-10T12:10:00.000Z'', emailSent = True\<rparr>"

section \<open>Lemmas on the store\<close>

lemma find_email_None:
  "(List.find (\<lambda>l. email l = e) ls = None) = (e \<notin> set (map email ls))"
  by (induction ls) auto

lemma addLead_rejected:
  assumes "name lead = [] \<or> email lead = [] \<or> email lead \<in> set (session_emails s)"
  shows "sessionLeads (addLead lead s) = sessionLeads s"
    and "error (addLead lead s) \<noteq> None"
    and "submitted (addLead lead s) = submitted s"
    and "isLoading (addLead lead s) = isLoading s"
  using assms find_email_None [of "email lead" "sessionLeads s"]
  by (auto simp: addLead_def session_emails_def split: option.splits)

lemma addLead_accepted:
  assumes "name lead \<noteq> []" and "email lead \<noteq> []"
    and "email lead \<notin> set (session_emails s)"
  shows "addLead lead s = s\<lparr>sessionLeads := sessionLeads s @ [lead], error := None\<rparr>"
proof -
  from assms(3) have "List.find (\<lambda>l. email l = email lead) (sessionLeads s) = None"
    by (simp add: find_email_None session_emails_def)
  with assms(1,2) show ?thesis
    by (simp add: addLead_def)
qed

lemma addLead_keeps_distinct:
  assumes "distinct (session_emails s)"
  shows "distinct (session_emails (addLead lead s))"
proof (cases "name lead = [] \<or> email lead = [] \<or> email lead \<in> set (session_emails s)")
  case True
  then have "sessionLeads (addLead lead s) = sessionLeads s"
    by (rule addLead_rejected(1))
  with assms show ?thesis
    by (simp add: session_emails_def)
next
  case False
  then have "addLead lead s = s\<lparr>sessionLeads := sessionLeads s @ [lead], error := None\<rparr>"
    by (simp add: addLead_accepted)
  with assms False show ?thesis
    by (simp add: session_emails_def)
qed

lemma apply_op_keeps_distinct:
  "distinct (session_emails s) \<Longrightarrow> distinct (session_emails (apply_op s op))"
proof (cases op)
  case (AddLead lead)
  assume "distinct (session_emails s)"
  with AddLead show ?thesis
    by (simp add: addLead_keeps_distinct)
qed (simp_all add: session_emails_def setSubmitted_def clearError_def setLoading_def)

lemma foldl_apply_op_distinct:
  "distinct (session_emails s) \<Longrightarrow> distinct (session_emails (foldl apply_op s ops))"
  by (induction ops arbitrary: s) (simp_all add: apply_op_keeps_distinct)

lemma session_emails_mem:
  "(e \<in> set (session_emails s)) = (\<exists>l \<in> set (sessionLeads s). email l = e)"
  unfolding session_emails_def by (induction "sessionLeads s" arbitrary: s) auto

lemma unique_key_occurs_once:
  "distinct (map f ls) \<Longrightarrow> x \<in> set (map f ls) \<Longrightarrow> length (filter (\<lambda>l. f l = x) ls) = 1"
proof (induction ls)
  case Nil
  then show ?case by simp
next
  case (Cons a ls)
  show ?case
  proof (cases "f a = x")
    case True
    from Cons.prems(1) have "f a \<notin> f ` set ls" by simp
    with True have "\<forall>l \<in> set ls. f l \<noteq> x" by (metis imageI)
    then have "filter (\<lambda>l. f l = x) ls = []" by (simp add: filter_empty_conv)
    with True show ?thesis by simp
  next
    case False
    with Cons show ?thesis by simp
  qed
qed

lemma addLead_then_present:
  assumes "name l1 \<noteq> []" and "email l1 \<noteq> []"
  shows "email l1 \<in> set (session_emails (addLead l1 s))"
proof (cases "email l1 \<in> set (session_emails s)")
  case True
  then have "sessionLeads (addLead l1 s) = sessionLeads s"
    by (simp add: addLead_rejected(1))
  with True show ?thesis by (simp add: session_emails_def)
next
  case False
  with assms have "addLead l1 s = s\<lparr>sessionLeads := sessionLeads s @ [l1], error := None\<rparr>"
    by (simp add: addLead_accepted)
  then show ?thesis by (simp add: session_emails_def)
qed

section \<open>Lemmas on the controller\<close>

lemmas example_defs = ada_form_def grace_form_def env_ok_def env_insert_error_def
  env_insert_aborted_def env_notify_error_def env_notify_aborted_def ui_ada_def ui_init_def
  useLeadStore_init_def

lemmas validation_defs = validateLeadForm_def is_space_def email_shape_def allowed_industries_def

lemmas store_defs = setLoading_def clearError_def setSubmitted_def

lemma validate_ada: "validateLeadForm ada_form = []"
  by (simp add: validation_defs ada_form_def)

lemma validate_grace: "validateLeadForm grace_form = []"
  by (simp add: validation_defs grace_form_def)

lemma validate_empty_form:
  "validateLeadForm \<lparr>name = [], email = [], industry = []\<rparr> =
     [\<lparr>field = ''name'', message = ''Name is required''\<rparr>,
      \<lparr>field = ''email'', message = ''Please enter a valid email address''\<rparr>,
      \<lparr>field = ''industry'', message = ''Please select an industry''\<rparr>]"
  by (simp add: validation_defs)

subsection \<open>The three ways through the handler\<close>

lemma handleSubmit_invalid:
  assumes "validate e (formData u) \<noteq> []"
  shows "handleSubmit e u =
           (u\<lparr>validationErrors := validate e (formData u),
              store := setLoading False (setLoading True (clearError (store u)))\<rparr>, [])"
  using assms by (simp add: handleSubmit_def Let_def)

lemma handleSubmit_insert_failed:
  assumes "validate e (formData u) = []"
    and "insert_leads e (inserted_row e u) \<noteq> Resolved None"
  shows "handleSubmit e u =
           (u\<lparr>validationErrors := [],
              store := setLoading False (setLoading True (clearError (store u)))\<rparr>,
            [DbInsert (inserted_row e u)])"
  using assms
  by (simp add: handleSubmit_def Let_def inserted_row_def
      split: remote_result.splits option.splits)

lemma handleSubmit_inserted:
  assumes "validate e (formData u) = []"
    and "insert_leads e (inserted_row e u) = Resolved None"
  shows "handleSubmit e u =
           (u\<lparr>validationErrors := [],
              formData := \<lparr>name = [], email = [], industry = []\<rparr>,
              store := setLoading False (setSubmitted True
                 (addLead (with_emailSent (candidate_lead e u)
                             (invoke_send_confirmation e (notify_body u) = Resolved None))
                    (setLoading True (clearError (store u)))))\<rparr>,
            [DbInsert (inserted_row e u), FunctionsInvoke (notify_body u)])"
  using assms
  by (simp add: handleSubmit_def Let_def inserted_row_def candidate_lead_def notify_body_def
      split: remote_result.splits option.splits)

subsection \<open>The concrete sessions, evaluated\<close>

lemma run_ok_ada:
  "handleSubmit env_ok ui_ada =
     (\<lparr>formData = \<lparr>name = [], email = [], industry = []\<rparr>, validationErrors = [],
       store = \<lparr>submitted = True, sessionLeads = [ada_sent], error = None, isLoading = False\<rparr>\<rparr>,
      [DbInsert \<lparr>name = ''Ada'', email = ''ada@example.com'', industry = ''technology'',
                 submitted_at = ''2025-07-10T12:00:00.001Z''\<rparr>,
       FunctionsInvoke ada_form])"
  by (simp add: handleSubmit_def store_defs addLead_def with_emailSent_def example_defs
      ada_sent_def validate_ada [unfolded ada_form_def])

lemma ui_ada_again_eq:
  "ui_ada_again =
     \<lparr>formData = ada_form, validationErrors = [],
      store = \<lparr>submitted = False, sessionLeads = [ada_sent], error = None, isLoading = False\<rparr>\<rparr>"
  by (simp add: ui_ada_again_def run_ok_ada submitAnother_def setSubmitted_def)

lemma ui_grace_next_eq:
  "ui_grace_next =
     \<lparr>formData = grace_form, validationErrors = [],
      store = \<lparr>submitted = False, sessionLeads = [ada_sent], error = None, isLoading = False\<rparr>\<rparr>"
  by (simp add: ui_grace_next_def run_ok_ada submitAnother_def setSubmitted_def)

lemma run_ok_grace_next:
  "LeadCaptureForm (fst (handleSubmit env_ok ui_grace_next)) = SuccessView 2"
  by (simp add: ui_grace_next_eq LeadCaptureForm_def handleSubmit_def store_defs
        addLead_def with_emailSent_def env_ok_def ada_sent_def
        validate_grace [unfolded grace_form_def] grace_form_def)

lemma session_emails_frame [simp]:
  "session_emails (setLoading b s) = session_emails s"
  "session_emails (clearError s) = session_emails s"
  "session_emails (setSubmitted b s) = session_emails s"
  by (simp_all add: session_emails_def store_defs)

lemma handleSubmit_trace:
  "snd (handleSubmit e u) =
     (if validate e (formData u) \<noteq> [] then []
      else if insert_leads e (inserted_row e u) = Resolved None
           then [DbInsert (inserted_row e u), FunctionsInvoke (notify_body u)]
           else [DbInsert (inserted_row e u)])"
  by (simp add: handleSubmit_invalid handleSubmit_insert_failed handleSubmit_inserted)

section \<open>Failing insert\<close>

text \<open>
  C1, as the code has it. For every submission that passes validation and whose insert
  fails (the awaited call rejects, as on abort by the timer, or resolves with an error
  object), the handler issues the insert and nothing else, sets \<^verbatim>\<open>isLoading\<close> to false,
  adds no lead to the session collection and leaves \<^verbatim>\<open>submitted\<close> as it was. The store's
  \<^verbatim>\<open>error\<close> field is null afterwards: \<^verbatim>\<open>clearError\<close> ran at the start, the \<^verbatim>\<open>catch\<close> block
  only logs, and the store has no operation through which the handler could set it.
\<close>

theorem insert_failure_outcome:
  assumes "validate e (formData u) = []"
    and "insert_leads e (inserted_row e u) \<noteq> Resolved None"
  shows "isLoading (store (fst (handleSubmit e u))) = False
     \<and> error (store (fst (handleSubmit e u))) = None
     \<and> sessionLeads (store (fst (handleSubmit e u))) = sessionLeads (store u)
     \<and> submitted (store (fst (handleSubmit e u))) = submitted (store u)
     \<and> snd (handleSubmit e u) = [DbInsert (inserted_row e u)]"
  by (simp add: handleSubmit_insert_failed [OF assms] store_defs)

theorem insert_failure_outcome_witness:
  "validate env_insert_aborted (formData ui_ada) = []
   \<and> insert_leads env_insert_aborted (inserted_row env_insert_aborted ui_ada) = Rejected
   \<and> isLoading (store (fst (handleSubmit env_insert_aborted ui_ada))) = False
   \<and> error (store (fst (handleSubmit env_insert_aborted ui_ada))) = None
   \<and> sessionLeads (store (fst (handleSubmit env_insert_aborted ui_ada))) = []
   \<and> submitted (store (fst (handleSubmit env_insert_aborted ui_ada))) = False"
proof -
  have v: "validate env_insert_aborted (formData ui_ada) = []"
    by (simp add: example_defs validate_ada [unfolded ada_form_def])
  have r: "insert_leads env_insert_aborted (inserted_row env_insert_aborted ui_ada) = Rejected"
    by (simp add: example_defs)
  then have f: "insert_leads env_insert_aborted (inserted_row env_insert_aborted ui_ada) \<noteq> Resolved None"
    by simp
  have s: "sessionLeads (store ui_ada) = [] \<and> submitted (store ui_ada) = False"
    by (simp add: example_defs)
  from insert_failure_outcome [OF v f] v r s show ?thesis
    by simp
qed

text \<open>
  C1 as the spec words it asks for the failure to appear in the store's \<^verbatim>\<open>error\<close> field.
  On the fresh page with Ada's values and an insert that answers
  \<^verbatim>\<open>{ error: { message: 'permission denied' } }\<close>, the field is null when the handler
  returns.
\<close>

theorem insert_failure_sets_store_error_counterexample:
  "validate env_insert_error (formData ui_ada) = []
   \<and> insert_leads env_insert_error (inserted_row env_insert_error ui_ada)
       = Resolved (Some ''permission denied'')
   \<and> error (store (fst (handleSubmit env_insert_error ui_ada))) = None
   \<and> \<not> (isLoading (store (fst (handleSubmit env_insert_error ui_ada))) = False
        \<and> error (store (fst (handleSubmit env_insert_error ui_ada))) \<noteq> None
        \<and> sessionLeads (store (fst (handleSubmit env_insert_error ui_ada))) = sessionLeads (store ui_ada)
        \<and> submitted (store (fst (handleSubmit env_insert_error ui_ada))) = False)"
  by (simp add: handleSubmit_def store_defs example_defs inserted_row_def
      validate_ada [unfolded ada_form_def])

section \<open>Failing notify call\<close>

text \<open>
  C2, as the code has it. For every submission that passes validation, whose insert
  succeeds and whose notify call fails (rejects or resolves with an error object), the
  handler calls \<^verbatim>\<open>addLead\<close> once with the lead carrying \<^verbatim>\<open>emailSent = false\<close>, then sets
  \<^verbatim>\<open>submitted\<close> to true and \<^verbatim>\<open>isLoading\<close> to false, whatever \<^verbatim>\<open>addLead\<close> did; the remote
  calls are the insert followed by a single notify call. The lead is in the session
  collection afterwards, as its last element, when its name and email are not empty and
  its email is not yet in the collection.
\<close>

theorem notify_failure_outcome:
  assumes "validate e (formData u) = []"
    and "insert_leads e (inserted_row e u) = Resolved None"
    and "invoke_send_confirmation e (notify_body u) \<noteq> Resolved None"
  shows "store (fst (handleSubmit e u)) =
           setLoading False (setSubmitted True
             (addLead (with_emailSent (candidate_lead e u) False)
                (setLoading True (clearError (store u)))))
     \<and> submitted (store (fst (handleSubmit e u))) = True
     \<and> isLoading (store (fst (handleSubmit e u))) = False
     \<and> snd (handleSubmit e u) = [DbInsert (inserted_row e u), FunctionsInvoke (notify_body u)]
     \<and> (name (formData u) \<noteq> [] \<and> email (formData u) \<noteq> []
          \<and> email (formData u) \<notin> set (session_emails (store u))
        \<longrightarrow> sessionLeads (store (fst (handleSubmit e u)))
              = sessionLeads (store u) @ [with_emailSent (candidate_lead e u) False]
            \<and> emailSent (last (sessionLeads (store (fst (handleSubmit e u))))) = False
            \<and> error (store (fst (handleSubmit e u))) = None)"
proof -
  let ?s1 = "setLoading True (clearError (store u))"
  let ?lead = "with_emailSent (candidate_lead e u) False"
  have st: "store (fst (handleSubmit e u)) = setLoading False (setSubmitted True (addLead ?lead ?s1))"
    using assms(3) by (simp add: handleSubmit_inserted [OF assms(1,2)])
  have tr: "snd (handleSubmit e u) = [DbInsert (inserted_row e u), FunctionsInvoke (notify_body u)]"
    by (simp add: handleSubmit_inserted [OF assms(1,2)])
  have fresh: "sessionLeads (store (fst (handleSubmit e u))) = sessionLeads (store u) @ [?lead]
            \<and> emailSent (last (sessionLeads (store (fst (handleSubmit e u))))) = False
            \<and> error (store (fst (handleSubmit e u))) = None"
    if a: "name (formData u) \<noteq> [] \<and> email (formData u) \<noteq> []
          \<and> email (formData u) \<notin> set (session_emails (store u))"
  proof -
    have "name ?lead \<noteq> []" "email ?lead \<noteq> []" "email ?lead \<notin> set (session_emails ?s1)"
      using a by (simp_all add: with_emailSent_def candidate_lead_def)
    then have "addLead ?lead ?s1 = ?s1\<lparr>sessionLeads := sessionLeads ?s1 @ [?lead], error := None\<rparr>"
      by (rule addLead_accepted)
    then have "sessionLeads (store (fst (handleSubmit e u))) = sessionLeads (store u) @ [?lead]"
      and "error (store (fst (handleSubmit e u))) = None"
      by (simp_all add: st store_defs)
    moreover from this(1)
    have "emailSent (last (sessionLeads (store (fst (handleSubmit e u))))) = False"
      by (simp add: with_emailSent_def)
    ultimately show ?thesis by simp
  qed
  have "submitted (store (fst (handleSubmit e u))) = True"
    and "isLoading (store (fst (handleSubmit e u))) = False"
    by (simp_all add: st store_defs)
  with st tr fresh show ?thesis
    by blast
qed

theorem notify_failure_outcome_witness:
  "validate env_notify_aborted (formData ui_ada) = []
   \<and> insert_leads env_notify_aborted (inserted_row env_notify_aborted ui_ada) = Resolved None
   \<and> invoke_send_confirmation env_notify_aborted (notify_body ui_ada) = Rejected
   \<and> sessionLeads (store (fst (handleSubmit env_notify_aborted ui_ada)))
       = [\<lparr>name = ''Ada'', email = ''ada@example.com'', industry = ''technology'',
           submitted_at = ''2025-07-10T12:00:00.000Z'', emailSent = False\<rparr>]
   \<and> submitted (store (fst (handleSubmit env_notify_aborted ui_ada))) = True
   \<and> snd (handleSubmit env_notify_aborted ui_ada)
       = [DbInsert \<lparr>name = ''Ada'', email = ''ada@example.com'', industry = ''technology'',
                    submitted_at = ''2025-07-10T12:00:00.001Z''\<rparr>,
          FunctionsInvoke ada_form]"
proof -
  have v: "validate env_notify_aborted (formData ui_ada) = []"
    by (simp add: example_defs validate_ada [unfolded ada_form_def])
  have i: "insert_leads env_notify_aborted (inserted_row env_notify_aborted ui_ada) = Resolved None"
    by (simp add: example_defs)
  have r: "invoke_send_confirmation env_notify_aborted (notify_body ui_ada) = Rejected"
    by (simp add: example_defs)
  then have n: "invoke_send_confirmation env_notify_aborted (notify_body ui_ada) \<noteq> Resolved None"
    by simp
  have c: "name (formData ui_ada) \<noteq> [] \<and> email (formData ui_ada) \<noteq> []
          \<and> email (formData ui_ada) \<notin> set (session_emails (store ui_ada))
          \<and> sessionLeads (store ui_ada) = []"
    by (simp add: example_defs session_emails_def)
  have d: "with_emailSent (candidate_lead env_notify_aborted ui_ada) False
       = \<lparr>name = ''Ada'', email = ''ada@example.com'', industry = ''technology'',
           submitted_at = ''2025-07-10T12:00:00.000Z'', emailSent = False\<rparr>
     \<and> inserted_row env_notify_aborted ui_ada
       = \<lparr>name = ''Ada'', email = ''ada@example.com'', industry = ''technology'',
           submitted_at = ''2025-07-10T12:00:00.001Z''\<rparr>
     \<and> notify_body ui_ada = ada_form"
    by (simp add: example_defs with_emailSent_def candidate_lead_def inserted_row_def notify_body_def)
  from notify_failure_outcome [OF v i n, THEN conjunct2] v i r c d show ?thesis
    by simp
qed

text \<open>
  C2 as the spec words it has the lead stored after every such submission. When Ada is
  submitted a second time in the same session and the notify call answers with an error,
  \<^verbatim>\<open>addLead\<close> rejects the lead: the collection still holds the first lead only, the one
  with \<^verbatim>\<open>emailSent = true\<close>.
\<close>

theorem notify_failure_adds_lead_counterexample:
  "validate env_notify_error (formData ui_ada_again) = []
   \<and> insert_leads env_notify_error (inserted_row env_notify_error ui_ada_again) = Resolved None
   \<and> invoke_send_confirmation env_notify_error (notify_body ui_ada_again)
        = Resolved (Some ''Edge Function returned 500'')
   \<and> sessionLeads (store (fst (handleSubmit env_notify_error ui_ada_again)))
        = sessionLeads (store ui_ada_again)
   \<and> with_emailSent (candidate_lead env_notify_error ui_ada_again) False
        \<notin> set (sessionLeads (store (fst (handleSubmit env_notify_error ui_ada_again))))"
  by (simp add: ui_ada_again_eq handleSubmit_def store_defs addLead_def with_emailSent_def
      env_notify_error_def env_ok_def ada_sent_def ada_form_def inserted_row_def notify_body_def
      candidate_lead_def validate_ada [unfolded ada_form_def])

section \<open>The store's contract\<close>

text \<open>
  C3. \<^verbatim>\<open>addLead\<close> fails, setting the error field and appending nothing, exactly when the
  lead's name is empty, its email is empty, or a lead with the same email is already in
  the session collection; otherwise it appends the lead behind the earlier ones and sets
  the error field to null. Hence of two leads with the same email, added one after the
  other to a collection with unique emails, exactly one ends up stored, and the error
  field is not null afterwards.
\<close>

theorem addLead_contract:
  "(if name lead = [] \<or> email lead = [] \<or> (\<exists>l \<in> set (sessionLeads s). email l = email lead)
    then error (addLead lead s) \<noteq> None \<and> sessionLeads (addLead lead s) = sessionLeads s
    else addLead lead s = s\<lparr>sessionLeads := sessionLeads s @ [lead], error := None\<rparr>)
   \<and> (name l1 \<noteq> [] \<and> email l1 \<noteq> [] \<and> email l2 = email l1 \<and> distinct (session_emails s)
        \<longrightarrow> length (filter (\<lambda>l. email l = email l1) (sessionLeads (addLead l2 (addLead l1 s)))) = 1
          \<and> error (addLead l2 (addLead l1 s)) \<noteq> None)"
proof (intro conjI impI)
  let ?rejected = "name lead = [] \<or> email lead = [] \<or> (\<exists>l \<in> set (sessionLeads s). email l = email lead)"
  have eq: "?rejected = (name lead = [] \<or> email lead = [] \<or> email lead \<in> set (session_emails s))"
    by (simp only: session_emails_mem)
  show "if ?rejected
    then error (addLead lead s) \<noteq> None \<and> sessionLeads (addLead lead s) = sessionLeads s
    else addLead lead s = s\<lparr>sessionLeads := sessionLeads s @ [lead], error := None\<rparr>"
  proof (cases ?rejected)
    case True
    then have r: "name lead = [] \<or> email lead = [] \<or> email lead \<in> set (session_emails s)"
      by (simp only: eq)
    have "error (addLead lead s) \<noteq> None \<and> sessionLeads (addLead lead s) = sessionLeads s"
      using addLead_rejected(2) [OF r] addLead_rejected(1) [OF r] by (rule conjI)
    then show ?thesis by (simp add: if_P [OF True])
  next
    case False
    then have "\<not> (name lead = [] \<or> email lead = [] \<or> email lead \<in> set (session_emails s))"
      unfolding eq .
    then have "addLead lead s = s\<lparr>sessionLeads := sessionLeads s @ [lead], error := None\<rparr>"
      by (simp add: addLead_accepted)
    then show ?thesis by (simp add: if_not_P [OF False])
  qed
next
  assume a: "name l1 \<noteq> [] \<and> email l1 \<noteq> [] \<and> email l2 = email l1 \<and> distinct (session_emails s)"
  let ?s1 = "addLead l1 s"
  from a have in1: "email l1 \<in> set (session_emails ?s1)"
    by (simp add: addLead_then_present)
  from a have d1: "distinct (session_emails ?s1)"
    by (simp add: addLead_keeps_distinct)
  from in1 a have rej: "name l2 = [] \<or> email l2 = [] \<or> email l2 \<in> set (session_emails ?s1)"
    by simp
  from rej have same: "sessionLeads (addLead l2 ?s1) = sessionLeads ?s1"
    by (rule addLead_rejected(1))
  from d1 in1 have "length (filter (\<lambda>l. email l = email l1) (sessionLeads ?s1)) = 1"
    unfolding session_emails_def by (rule unique_key_occurs_once)
  with same show "length (filter (\<lambda>l. email l = email l1) (sessionLeads (addLead l2 ?s1))) = 1"
    by simp
  from rej show "error (addLead l2 ?s1) \<noteq> None"
    by (rule addLead_rejected(2))
qed

theorem addLead_contract_witness:
  "sessionLeads (addLead ada_late (addLead ada_sent useLeadStore_init)) = [ada_sent]
   \<and> length (filter (\<lambda>l. email l = ''ada@example.com'')
        (sessionLeads (addLead ada_late (addLead ada_sent useLeadStore_init)))) = 1
   \<and> error (addLead ada_late (addLead ada_sent useLeadStore_init)) \<noteq> None
   \<and> addLead ada_sent useLeadStore_init = \<lparr>submitted = False, sessionLeads = [ada_sent], error = None, isLoading = False\<rparr>"
  using addLead_contract [of ada_sent useLeadStore_init ada_sent ada_late]
        addLead_contract [of ada_late "addLead ada_sent useLeadStore_init" ada_sent ada_late]
  by (simp add: ada_sent_def ada_late_def useLeadStore_init_def session_emails_def)

text \<open>
  C4. In every state the store reaches from its initial state by any sequence of
  \<^verbatim>\<open>setSubmitted\<close>, \<^verbatim>\<open>addLead\<close>, \<^verbatim>\<open>clearError\<close> and \<^verbatim>\<open>setLoading\<close>, no two leads of the
  session collection have the same email.
\<close>

theorem session_emails_unique:
  "distinct (session_emails (run_ops ops))"
proof -
  have "distinct (session_emails (useLeadStore_init :: 'a LeadStore))"
    by (simp add: session_emails_def useLeadStore_init_def)
  then show ?thesis
    unfolding run_ops_def by (rule foldl_apply_op_distinct)
qed

theorem session_emails_unique_witness:
  "distinct (session_emails (run_ops
      [SetLoading True, AddLead ada_sent, SetSubmitted True, AddLead ada_late, ClearError,
       AddLead grace_sent, SetLoading False]))
   \<and> session_emails (run_ops
      [SetLoading True, AddLead ada_sent, SetSubmitted True, AddLead ada_late, ClearError,
       AddLead grace_sent, SetLoading False]) = [''ada@example.com'', ''grace@example.com'']"
proof (rule conjI)
  show "distinct (session_emails (run_ops
      [SetLoading True, AddLead ada_sent, SetSubmitted True, AddLead ada_late, ClearError,
       AddLead grace_sent, SetLoading False]))"
    by (rule session_emails_unique)
  show "session_emails (run_ops
      [SetLoading True, AddLead ada_sent, SetSubmitted True, AddLead ada_late, ClearError,
       AddLead grace_sent, SetLoading False]) = [''ada@example.com'', ''grace@example.com'']"
    by (simp add: run_ops_def session_emails_def useLeadStore_init_def store_defs addLead_def
        ada_sent_def ada_late_def grace_sent_def)
qed

section \<open>Validation errors\<close>

text \<open>
  C5. When validation returns a non-empty list of errors, the handler makes no remote
  call, neither the insert nor the notify call, sets \<^verbatim>\<open>isLoading\<close> back to false, and
  leaves the session collection and \<^verbatim>\<open>submitted\<close> unchanged.
\<close>

theorem invalid_form_no_remote_call:
  assumes "validate e (formData u) \<noteq> []"
  shows "snd (handleSubmit e u) = []
     \<and> isLoading (store (fst (handleSubmit e u))) = False
     \<and> sessionLeads (store (fst (handleSubmit e u))) = sessionLeads (store u)
     \<and> submitted (store (fst (handleSubmit e u))) = submitted (store u)"
  by (simp add: handleSubmit_invalid [OF assms] store_defs)

theorem invalid_form_no_remote_call_witness:
  "validate env_ok (formData ui_init) \<noteq> []
   \<and> snd (handleSubmit env_ok ui_init) = []
   \<and> isLoading (store (fst (handleSubmit env_ok ui_init))) = False
   \<and> sessionLeads (store (fst (handleSubmit env_ok ui_init))) = []
   \<and> submitted (store (fst (handleSubmit env_ok ui_init))) = False"
proof -
  have v: "validate env_ok (formData ui_init) \<noteq> []"
    by (simp add: example_defs validate_empty_form)
  have s: "sessionLeads (store ui_init) = [] \<and> submitted (store ui_init) = False"
    by (simp add: example_defs)
  from invalid_form_no_remote_call [OF v] v s show ?thesis
    by simp
qed

section \<open>Order of the remote calls\<close>

text \<open>
  C6. The remote calls of one submission are none, the insert alone, or the insert
  followed by one notify call, and the last only when the insert has succeeded: the
  notify call is never issued before the insert, never without a successful insert and
  never twice.
\<close>

theorem remote_calls_ordered:
  "snd (handleSubmit e u) =
     (if validate e (formData u) \<noteq> [] then []
      else if insert_leads e (inserted_row e u) = Resolved None
           then [DbInsert (inserted_row e u), FunctionsInvoke (notify_body u)]
           else [DbInsert (inserted_row e u)])
   \<and> length (filter is_invoke (snd (handleSubmit e u))) \<le> 1
   \<and> length (filter is_insert (snd (handleSubmit e u))) \<le> 1
   \<and> (\<forall>i < length (snd (handleSubmit e u)).
         is_invoke (snd (handleSubmit e u) ! i)
           \<longrightarrow> insert_leads e (inserted_row e u) = Resolved None
               \<and> (\<exists>j < i. is_insert (snd (handleSubmit e u) ! j)))"
proof (intro conjI)
  show "snd (handleSubmit e u) =
     (if validate e (formData u) \<noteq> [] then []
      else if insert_leads e (inserted_row e u) = Resolved None
           then [DbInsert (inserted_row e u), FunctionsInvoke (notify_body u)]
           else [DbInsert (inserted_row e u)])"
    by (rule handleSubmit_trace)
  show "length (filter is_invoke (snd (handleSubmit e u))) \<le> 1"
    by (simp add: handleSubmit_trace)
  show "length (filter is_insert (snd (handleSubmit e u))) \<le> 1"
    by (simp add: handleSubmit_trace)
  show "\<forall>i < length (snd (handleSubmit e u)).
         is_invoke (snd (handleSubmit e u) ! i)
           \<longrightarrow> insert_leads e (inserted_row e u) = Resolved None
               \<and> (\<exists>j < i. is_insert (snd (handleSubmit e u) ! j))"
  proof (intro allI impI)
    fix i
    assume i: "i < length (snd (handleSubmit e u))"
      and inv: "is_invoke (snd (handleSubmit e u) ! i)"
    show "insert_leads e (inserted_row e u) = Resolved None
               \<and> (\<exists>j < i. is_insert (snd (handleSubmit e u) ! j))"
    proof (cases "validate e (formData u) = [] \<and> insert_leads e (inserted_row e u) = Resolved None")
      case True
      then have t: "snd (handleSubmit e u)
                  = [DbInsert (inserted_row e u), FunctionsInvoke (notify_body u)]"
        by (simp add: handleSubmit_trace)
      with i inv have "i = 1"
        by (cases i) simp_all
      with t True show ?thesis
        by auto
    next
      case False
      with i inv show ?thesis
        by (auto simp: handleSubmit_trace split: if_splits)
    qed
  qed
qed

theorem remote_calls_ordered_witness:
  "snd (handleSubmit env_ok ui_ada) =
     [DbInsert \<lparr>name = ''Ada'', email = ''ada@example.com'', industry = ''technology'',
                submitted_at = ''2025-07-10T12:00:00.001Z''\<rparr>,
      FunctionsInvoke ada_form]
   \<and> snd (handleSubmit env_insert_error ui_ada) =
     [DbInsert \<lparr>name = ''Ada'', email = ''ada@example.com'', industry = ''technology'',
                submitted_at = ''2025-07-10T12:00:00.001Z''\<rparr>]
   \<and> snd (handleSubmit env_ok ui_init) = []
   \<and> is_invoke (snd (handleSubmit env_ok ui_ada) ! 1)
   \<and> is_insert (snd (handleSubmit env_ok ui_ada) ! 0)"
proof -
  have v: "validate env_ok (formData ui_ada) = []"
     "validate env_insert_error (formData ui_ada) = []"
     "validate env_ok (formData ui_init) \<noteq> []"
    by (simp_all add: example_defs validate_ada [unfolded ada_form_def] validate_empty_form)
  have r: "insert_leads env_ok row = Resolved None"
     "insert_leads env_insert_error row = Resolved (Some ''permission denied'')" for row
    by (simp_all add: example_defs)
  have d: "inserted_row env_ok ui_ada
       = \<lparr>name = ''Ada'', email = ''ada@example.com'', industry = ''technology'',
           submitted_at = ''2025-07-10T12:00:00.001Z''\<rparr>"
     "inserted_row env_insert_error ui_ada
       = \<lparr>name = ''Ada'', email = ''ada@example.com'', industry = ''technology'',
           submitted_at = ''2025-07-10T12:00:00.001Z''\<rparr>"
     "notify_body ui_ada = ada_form"
    by (simp_all add: example_defs inserted_row_def notify_body_def)
  from remote_calls_ordered [of env_ok ui_ada, THEN conjunct1]
       remote_calls_ordered [of env_insert_error ui_ada, THEN conjunct1]
       remote_calls_ordered [of env_ok ui_init, THEN conjunct1]
  show ?thesis
    by (simp add: v r d)
qed

section \<open>Round trip\<close>

text \<open>
  C7. From the initial empty session, submitting name Ada, email ada@example.com and
  industry technology, with validation passing and both the insert and the notify call
  succeeding, leaves exactly one stored lead, with these three values, the time read when
  the lead was built as \<^verbatim>\<open>submitted_at\<close> and \<^verbatim>\<open>emailSent = true\<close>; the component renders
  the success view with a session count of 1.
\<close>

theorem ada_round_trip:
  assumes "validate e ada_form = []"
    and "insert_leads e (inserted_row e ui_ada) = Resolved None"
    and "invoke_send_confirmation e (notify_body ui_ada) = Resolved None"
  shows "sessionLeads (store (fst (handleSubmit e ui_ada)))
           = [\<lparr>name = ''Ada'', email = ''ada@example.com'', industry = ''technology'',
               submitted_at = now_lead e, emailSent = True\<rparr>]
     \<and> LeadCaptureForm (fst (handleSubmit e ui_ada)) = SuccessView 1"
proof -
  have v: "validate e (formData ui_ada) = []"
    using assms(1) by (simp add: ui_ada_def)
  have "store (fst (handleSubmit e ui_ada))
          = setLoading False (setSubmitted True
              (addLead (with_emailSent (candidate_lead e ui_ada) True)
                 (setLoading True (clearError (store ui_ada)))))"
    by (simp add: handleSubmit_inserted [OF v assms(2)] assms(3))
  also have "\<dots> = \<lparr>submitted = True,
             sessionLeads = [\<lparr>name = ''Ada'', email = ''ada@example.com'', industry = ''technology'',
                              submitted_at = now_lead e, emailSent = True\<rparr>],
             error = None, isLoading = False\<rparr>"
    by (simp add: store_defs addLead_def with_emailSent_def candidate_lead_def ui_ada_def
        ui_init_def useLeadStore_init_def ada_form_def)
  finally show ?thesis
    by (simp add: LeadCaptureForm_def)
qed

theorem ada_round_trip_witness:
  "validate env_ok ada_form = []
   \<and> insert_leads env_ok (inserted_row env_ok ui_ada) = Resolved None
   \<and> invoke_send_confirmation env_ok (notify_body ui_ada) = Resolved None
   \<and> sessionLeads (store (fst (handleSubmit env_ok ui_ada)))
        = [\<lparr>name = ''Ada'', email = ''ada@example.com'', industry = ''technology'',
            submitted_at = ''2025-07-10T12:00:00.000Z'', emailSent = True\<rparr>]
   \<and> LeadCaptureForm (fst (handleSubmit env_ok ui_ada)) = SuccessView 1"
proof -
  have v: "validate env_ok ada_form = []"
    by (simp add: env_ok_def validate_ada)
  have i: "insert_leads env_ok (inserted_row env_ok ui_ada) = Resolved None"
    by (simp add: env_ok_def)
  have n: "invoke_send_confirmation env_ok (notify_body ui_ada) = Resolved None"
    by (simp add: env_ok_def)
  have t: "now_lead env_ok = ''2025-07-10T12:00:00.000Z''"
    by (simp add: env_ok_def)
  from ada_round_trip [OF v i n] have
    "sessionLeads (store (fst (handleSubmit env_ok ui_ada)))
        = [\<lparr>name = ''Ada'', email = ''ada@example.com'', industry = ''technology'',
            submitted_at = ''2025-07-10T12:00:00.000Z'', emailSent = True\<rparr>]
     \<and> LeadCaptureForm (fst (handleSubmit env_ok ui_ada)) = SuccessView 1"
    by (simp only: t)
  with v i n show ?thesis
    by blast
qed

section \<open>Reset\<close>

text \<open>
  C8. \<^verbatim>\<open>setSubmitted\<close> changes the \<^verbatim>\<open>submitted\<close> flag and nothing else: the session
  collection, the error field and the loading flag are as before, for every store state.
  "Submit another" is \<^verbatim>\<open>setSubmitted(false)\<close>, so the number of leads of the session is
  the same after the reset.
\<close>

theorem setSubmitted_frame:
  "submitted (setSubmitted b s) = b
   \<and> sessionLeads (setSubmitted b s) = sessionLeads s
   \<and> error (setSubmitted b s) = error s
   \<and> isLoading (setSubmitted b s) = isLoading s
   \<and> store (submitAnother u) = setSubmitted False (store u)
   \<and> formData (submitAnother u) = formData u
   \<and> validationErrors (submitAnother u) = validationErrors u
   \<and> length (sessionLeads (store (submitAnother u))) = length (sessionLeads (store u))"
  by (simp add: setSubmitted_def submitAnother_def)

theorem setSubmitted_frame_witness:
  "LeadCaptureForm (fst (handleSubmit env_ok ui_ada)) = SuccessView 1
   \<and> store (submitAnother (fst (handleSubmit env_ok ui_ada)))
       = \<lparr>submitted = False, sessionLeads = [ada_sent], error = None, isLoading = False\<rparr>
   \<and> length (sessionLeads (store (submitAnother (fst (handleSubmit env_ok ui_ada))))) = 1
   \<and> LeadCaptureForm (fst (handleSubmit env_ok ui_grace_next)) = SuccessView 2"
proof -
  let ?u = "fst (handleSubmit env_ok ui_ada)"
  have before: "LeadCaptureForm ?u = SuccessView 1"
    and len: "length (sessionLeads (store ?u)) = 1"
    by (simp_all add: run_ok_ada LeadCaptureForm_def)
  have st: "setSubmitted False (store ?u)
       = \<lparr>submitted = False, sessionLeads = [ada_sent], error = None, isLoading = False\<rparr>"
    by (simp add: run_ok_ada setSubmitted_def)
  from setSubmitted_frame [of False "store ?u" ?u]
  have "store (submitAnother ?u) = setSubmitted False (store ?u)"
    and "length (sessionLeads (store (submitAnother ?u))) = length (sessionLeads (store ?u))"
    by blast+
  with before len st run_ok_grace_next show ?thesis
    by simp
qed

section \<open>What addLead does not check\<close>

text \<open>
  C9. \<^verbatim>\<open>addLead\<close> never looks at the industry: whether it accepts a lead, and the error
  it stores, are the same for every value of the field, and a lead with a non-empty name
  and a non-empty email that is not yet in the session collection is appended also when
  its industry is the empty string, so that the store then holds a lead with an empty
  industry.
\<close>

theorem addLead_ignores_industry:
  "(name lead \<noteq> [] \<and> email lead \<noteq> [] \<and> email lead \<notin> set (session_emails s)
     \<longrightarrow> addLead (lead\<lparr>industry := i\<rparr>) s
           = s\<lparr>sessionLeads := sessionLeads s @ [lead\<lparr>industry := i\<rparr>], error := None\<rparr>
         \<and> industry (last (sessionLeads (addLead (lead\<lparr>industry := []\<rparr>) s))) = [])
   \<and> error (addLead (lead\<lparr>industry := i\<rparr>) s) = error (addLead lead s)
   \<and> length (sessionLeads (addLead (lead\<lparr>industry := i\<rparr>) s)) = length (sessionLeads (addLead lead s))"
proof (intro conjI impI)
  assume a: "name lead \<noteq> [] \<and> email lead \<noteq> [] \<and> email lead \<notin> set (session_emails s)"
  then have acc: "addLead (lead\<lparr>industry := j\<rparr>) s
      = s\<lparr>sessionLeads := sessionLeads s @ [lead\<lparr>industry := j\<rparr>], error := None\<rparr>" for j
    by (simp add: addLead_accepted)
  show "addLead (lead\<lparr>industry := i\<rparr>) s
      = s\<lparr>sessionLeads := sessionLeads s @ [lead\<lparr>industry := i\<rparr>], error := None\<rparr>"
    by (rule acc)
  show "industry (last (sessionLeads (addLead (lead\<lparr>industry := []\<rparr>) s))) = []"
    by (simp add: acc)
next
  show "error (addLead (lead\<lparr>industry := i\<rparr>) s) = error (addLead lead s)"
    by (simp add: addLead_def split: option.splits)
  show "length (sessionLeads (addLead (lead\<lparr>industry := i\<rparr>) s)) = length (sessionLeads (addLead lead s))"
    by (simp add: addLead_def split: option.splits)
qed

theorem addLead_ignores_industry_witness:
  "sessionLeads (addLead (grace_sent\<lparr>industry := []\<rparr>) (addLead ada_sent useLeadStore_init))
     = [ada_sent, \<lparr>name = ''Grace'', email = ''grace@example.com'', industry = [],
                    submitted_at = ''2025-07-10T12:10:00.000Z'', emailSent = True\<rparr>]
   \<and> error (addLead (grace_sent\<lparr>industry := []\<rparr>) (addLead ada_sent useLeadStore_init)) = None"
  using addLead_ignores_industry [of grace_sent "addLead ada_sent useLeadStore_init" "[]"]
  by (simp add: ada_sent_def grace_sent_def useLeadStore_init_def session_emails_def addLead_def)

section \<open>Resubmitting an email of the session\<close>

text \<open>
  C10. When a submission passes validation, its insert and its notify call succeed, and
  its email (with a non-empty name and email, as validation requires) is already the
  email of a lead of the session collection, the handler still sets \<^verbatim>\<open>submitted\<close> to
  true, so that the success view is rendered, while \<^verbatim>\<open>addLead\<close> rejects the lead: the
  collection and its count are unchanged and the store's error field holds the
  duplicate-email message.
\<close>

theorem duplicate_email_still_success:
  assumes "validate e (formData u) = []"
    and "insert_leads e (inserted_row e u) = Resolved None"
    and "invoke_send_confirmation e (notify_body u) = Resolved None"
    and "name (formData u) \<noteq> []" and "email (formData u) \<noteq> []"
    and "email (formData u) \<in> set (session_emails (store u))"
  shows "submitted (store (fst (handleSubmit e u))) = True
     \<and> sessionLeads (store (fst (handleSubmit e u))) = sessionLeads (store u)
     \<and> error (store (fst (handleSubmit e u)))
         = Some ''A lead with this email already exists in this session''
     \<and> LeadCaptureForm (fst (handleSubmit e u)) = SuccessView (length (sessionLeads (store u)))"
proof -
  let ?s1 = "setLoading True (clearError (store u))"
  let ?lead = "with_emailSent (candidate_lead e u) True"
  have st: "store (fst (handleSubmit e u)) = setLoading False (setSubmitted True (addLead ?lead ?s1))"
    by (simp add: handleSubmit_inserted [OF assms(1,2)] assms(3))
  from assms(6) have "List.find (\<lambda>l. email l = email (formData u)) (sessionLeads (store u)) \<noteq> None"
    by (simp add: find_email_None session_emails_def)
  then obtain l where "List.find (\<lambda>l. email l = email (formData u)) (sessionLeads (store u)) = Some l"
    by blast
  with assms(4,5) have
    "addLead ?lead ?s1 = ?s1\<lparr>error := Some ''A lead with this email already exists in this session''\<rparr>"
    by (simp add: addLead_def with_emailSent_def candidate_lead_def store_defs)
  with st have "store (fst (handleSubmit e u))
      = (store u)\<lparr>error := Some ''A lead with this email already exists in this session'',
                  submitted := True, isLoading := False\<rparr>"
    by (simp add: store_defs)
  then show ?thesis
    by (simp add: LeadCaptureForm_def)
qed

theorem duplicate_email_still_success_witness:
  "validate env_ok (formData ui_ada_again) = []
   \<and> email (formData ui_ada_again) \<in> set (session_emails (store ui_ada_again))
   \<and> submitted (store (fst (handleSubmit env_ok ui_ada_again))) = True
   \<and> sessionLeads (store (fst (handleSubmit env_ok ui_ada_again))) = [ada_sent]
   \<and> error (store (fst (handleSubmit env_ok ui_ada_again)))
       = Some ''A lead with this email already exists in this session''
   \<and> LeadCaptureForm (fst (handleSubmit env_ok ui_ada_again)) = SuccessView 1"
proof -
  have v: "validate env_ok (formData ui_ada_again) = []"
    by (simp add: ui_ada_again_eq env_ok_def validate_ada)
  have i: "insert_leads env_ok (inserted_row env_ok ui_ada_again) = Resolved None"
    by (simp add: env_ok_def)
  have n: "invoke_send_confirmation env_ok (notify_body ui_ada_again) = Resolved None"
    by (simp add: env_ok_def)
  have f: "name (formData ui_ada_again) \<noteq> []" "email (formData ui_ada_again) \<noteq> []"
    by (simp_all add: ui_ada_again_eq ada_form_def)
  have d: "email (formData ui_ada_again) \<in> set (session_emails (store ui_ada_again))"
    by (simp add: ui_ada_again_eq ada_form_def ada_sent_def session_emails_def)
  have s: "sessionLeads (store ui_ada_again) = [ada_sent]"
    by (simp add: ui_ada_again_eq)
  from duplicate_email_still_success [OF v i n f d] v d s show ?thesis
    by simp
qed

end
